theory Spec2Isabelle
  imports Main
begin

section \<open>JavaScript values used by the scale checks\<close>

text \<open>
  A scale bound is either a number or the string \<^verbatim>\<open>'auto'\<close> (the constant \<^verbatim>\<open>AUTO\<close>).
  \<^verbatim>\<open>toMin\<close> and \<^verbatim>\<open>toMax\<close> both return the string unchanged when it is \<^verbatim>\<open>'auto'\<close>, so
  either bound of a preset may be \<^verbatim>\<open>'auto'\<close>.
\<close>

datatype scale_val = Num int | Auto

text \<open>
  The numbers the comparisons see: a finite integer, \<^verbatim>\<open>Infinity\<close>, or \<^verbatim>\<open>NaN\<close>
  (what \<^verbatim>\<open>'auto'\<close> converts to when it is compared with a number).
\<close>

datatype js_num = Fin int | PosInf | NaN

fun ToNumber :: "scale_val \<Rightarrow> js_num" where
  "ToNumber (Num n) = Fin n"
| "ToNumber Auto = NaN"

text \<open>\<^verbatim>\<open>a < b\<close> on numbers: false as soon as one side is \<^verbatim>\<open>NaN\<close>.\<close>

fun js_lt :: "js_num \<Rightarrow> js_num \<Rightarrow> bool" where
  "js_lt NaN _ = False"
| "js_lt _ NaN = False"
| "js_lt (Fin a) (Fin b) = (a < b)"
| "js_lt (Fin a) PosInf = True"
| "js_lt PosInf _ = False"

definition js_gt :: "js_num \<Rightarrow> js_num \<Rightarrow> bool" where
  "js_gt a b = js_lt b a"

text \<open>\<^verbatim>\<open>a >= b\<close>: false with a \<^verbatim>\<open>NaN\<close> operand, otherwise the negation of \<^verbatim>\<open>a < b\<close>.\<close>

fun js_ge :: "js_num \<Rightarrow> js_num \<Rightarrow> bool" where
  "js_ge NaN _ = False"
| "js_ge _ NaN = False"
| "js_ge a b = (\<not> js_lt a b)"

text \<open>\<^verbatim>\<open>Math.max(a, b)\<close>: \<^verbatim>\<open>NaN\<close> if either argument is.\<close>

fun Math_max :: "js_num \<Rightarrow> js_num \<Rightarrow> js_num" where
  "Math_max NaN _ = NaN"
| "Math_max _ NaN = NaN"
| "Math_max PosInf _ = PosInf"
| "Math_max _ PosInf = PosInf"
| "Math_max (Fin a) (Fin b) = Fin (max a b)"

section \<open>The scale command's convergence check\<close>

text \<open>
  \<^verbatim>\<open>
  function isInstanceCountBetween(v, min, max) {
    if (v < min) return false;
    if (v > (max === AUTO ? Infinity : max)) return false;
    return true;
  }
  \<close>
\<close>

definition isInstanceCountBetween :: "int \<Rightarrow> scale_val \<Rightarrow> scale_val \<Rightarrow> bool" where
  "isInstanceCountBetween v mn mx =
     (if js_lt (Fin v) (ToNumber mn) then False
      else if js_gt (Fin v) (if mx = Auto then PosInf else ToNumber mx) then False
      else True)"

section \<open>The deploy command's convergence check\<close>

record scale_preset =
  preset_min :: scale_val
  preset_max :: scale_val

text \<open>One entry of the instances snapshot: \<^verbatim>\<open>{ instances: [...] }\<close>.\<close>

record dc_instances =
  instances :: "string list"

text \<open>
  \<^verbatim>\<open>
  function matchMinPresets(scalePreset, instancesObj) {
    const value = Math.max(1, scalePreset.min)
    return instancesObj.instances.length >= value
  }
  \<close>
\<close>

definition matchMinPresets :: "scale_preset \<Rightarrow> dc_instances \<Rightarrow> bool" where
  "matchMinPresets scalePreset instancesObj =
     (let value = Math_max (Fin 1) (ToNumber (preset_min scalePreset))
      in js_ge (Fin (int (length (instances instancesObj)))) value)"

section \<open>Errors, snapshots and the poll environment\<close>

text \<open>
  What the code throws or receives as a rejection: \<^verbatim>\<open>new Error(message)\<close>, a
  \<^verbatim>\<open>TypeError\<close> of the runtime (a property read on \<^verbatim>\<open>undefined\<close>), an error object
  with a \<^verbatim>\<open>code\<close> (and the offending \<^verbatim>\<open>id\<close>), an API error with a \<^verbatim>\<open>status\<close> and a
  \<^verbatim>\<open>code\<close>, or a failure of the transport.
\<close>

datatype error =
    Error string
  | TypeError string
  | CodedError string string
  | ApiError int string
  | TransportError string

datatype 'a completion = Returned 'a | Threw error

type_synonym dc = string

text \<open>
  The instances endpoint answers with an object from region ids to their instances;
  \<^verbatim>\<open>data[dc]\<close> is \<^verbatim>\<open>undefined\<close> (here \<open>None\<close>) for a region it does not list.
\<close>

type_synonym snapshot = "dc \<rightharpoonup> dc_instances"

text \<open>
  The scale object \<^verbatim>\<open>{ dc: { min, max }, ... }\<close>, in key order. The keys of an
  object are unique.
\<close>

type_synonym scale_obj = "(dc \<times> scale_preset) list"

definition Object_keys :: "('k \<times> 'v) list \<Rightarrow> 'k list" where
  "Object_keys obj = map fst obj"

text \<open>\<^verbatim>\<open>new Set(xs)\<close>: the elements of \<open>xs\<close> in order of first occurrence.\<close>

definition new_Set :: "'a list \<Rightarrow> 'a list" where
  "new_Set xs = rev (remdups (rev xs))"

text \<open>
  One turn of a polling loop as the environment decides it: what \<^verbatim>\<open>Date.now()\<close>
  reads at the deadline check, and what the fetch of the instances answers should the
  turn get that far.
\<close>

record cycle =
  clock :: int
  fetched :: "error + snapshot"

definition timeout_message :: string where
  "timeout_message = ''Timeout while verifying instance count (10m)''"

section \<open>The scale command: waitForScale\<close>

datatype poll_effect =
    FetchInstances
  | DebugMissing dc
  | OnDCScaled dc int
  | DebugMatch dc
  | DebugMiss dc scale_val scale_val int
  | Sleep int

record wait_opts =
  timeout :: int
  checkInterval :: int
  onDCScaled :: bool

record poll_state =
  intendedScaleDcs :: "dc list"
  effects :: "poll_effect list"

text \<open>
  The body of \<^verbatim>\<open>for (const dc of intendedScaleDcs)\<close>. The third list is what the
  iteration has still to visit; deleting the current element from the set does not
  disturb it. A region without data ends the iteration (\<^verbatim>\<open>break\<close>).
  \<^verbatim>\<open>
  const currentScale = data[dc];
  if (!currentScale) { debug(`missing data for dc ${dc}`); break; }
  const instanceCount = data[dc].instances.length;
  const { min, max } = intendedScale[dc];
  if (isInstanceCountBetween(instanceCount, min, max)) {
    if (onDCScaled !== null) onDCScaled(dc, instanceCount);
    intendedScaleDcs.delete(dc);
    debug(`dc "${dc}" match`);
  } else {
    debug(`dc "${dc}" miss. intended: ${min}-${max}. current: ${instanceCount}`);
  }
  \<close>
\<close>

fun for_dcs :: "scale_obj \<Rightarrow> wait_opts \<Rightarrow> snapshot \<Rightarrow> dc list \<Rightarrow> poll_state
    \<Rightarrow> error + poll_state" where
  "for_dcs intendedScale opts data [] st = Inr st"
| "for_dcs intendedScale opts data (d # rest) st =
     (case data d of
        None \<Rightarrow> Inr (st\<lparr>effects := effects st @ [DebugMissing d]\<rparr>)
      | Some currentScale \<Rightarrow>
          (let instanceCount = int (length (instances currentScale)) in
           case map_of intendedScale d of
             None \<Rightarrow> Inl (TypeError ''Cannot destructure property min of undefined'')
           | Some p \<Rightarrow>
               if isInstanceCountBetween instanceCount (preset_min p) (preset_max p)
               then for_dcs intendedScale opts data rest
                      (st\<lparr>intendedScaleDcs := removeAll d (intendedScaleDcs st),
                          effects := effects st
                            @ (if onDCScaled opts then [OnDCScaled d instanceCount] else [])
                            @ [DebugMatch d]\<rparr>)
               else for_dcs intendedScale opts data rest
                      (st\<lparr>effects := effects st
                            @ [DebugMiss d (preset_min p) (preset_max p) instanceCount]\<rparr>)))"

text \<open>
  One turn of the \<^verbatim>\<open>while (true)\<close> loop: it ends the call (by \<^verbatim>\<open>return\<close> or by
  \<^verbatim>\<open>throw\<close>) or goes to sleep for the next turn.
  \<^verbatim>\<open>
  if (start + timeout <= Date.now()) throw new Error('Timeout while verifying instance count (10m)');
  const data = await now.fetch(...)
  for (const dc of intendedScaleDcs) { ... }
  if (intendedScaleDcs.size === 0) return;
  await sleep(checkInterval);
  \<close>
\<close>

datatype 's turn = Stop "unit completion" 's | Continue 's

definition poll_cycle :: "int \<Rightarrow> scale_obj \<Rightarrow> wait_opts \<Rightarrow> cycle \<Rightarrow> poll_state \<Rightarrow> poll_state turn" where
  "poll_cycle start intendedScale opts c st =
     (if start + timeout opts \<le> clock c then Stop (Threw (Error timeout_message)) st
      else
        let st1 = st\<lparr>effects := effects st @ [FetchInstances]\<rparr> in
        case fetched c of
          Inl e \<Rightarrow> Stop (Threw e) st1
        | Inr data \<Rightarrow>
            (case for_dcs intendedScale opts data (intendedScaleDcs st1) st1 of
               Inl e \<Rightarrow> Stop (Threw e) st1
             | Inr st2 \<Rightarrow>
                 if intendedScaleDcs st2 = [] then Stop (Returned ()) st2
                 else Continue (st2\<lparr>effects := effects st2 @ [Sleep (checkInterval opts)]\<rparr>)))"

text \<open>
  The loop over the turns the environment provides. The result is \<open>None\<close> when they are
  used up with the loop still polling.
\<close>

fun waitForScale_loop :: "int \<Rightarrow> scale_obj \<Rightarrow> wait_opts \<Rightarrow> cycle list \<Rightarrow> poll_state
    \<Rightarrow> (unit completion \<times> poll_state) option" where
  "waitForScale_loop start intendedScale opts [] st = None"
| "waitForScale_loop start intendedScale opts (c # cs) st =
     (case poll_cycle start intendedScale opts c st of
        Stop r st' \<Rightarrow> Some (r, st')
      | Continue st' \<Rightarrow> waitForScale_loop start intendedScale opts cs st')"

text \<open>
  The state of the poller after the given turns (the state it stopped in, if it stopped
  before the last of them): what an observer sees of the unconverged set over time.
\<close>

fun poll_state_after :: "int \<Rightarrow> scale_obj \<Rightarrow> wait_opts \<Rightarrow> cycle list \<Rightarrow> poll_state \<Rightarrow> poll_state" where
  "poll_state_after start intendedScale opts [] st = st"
| "poll_state_after start intendedScale opts (c # cs) st =
     (case poll_cycle start intendedScale opts c st of
        Stop r st' \<Rightarrow> st'
      | Continue st' \<Rightarrow> poll_state_after start intendedScale opts cs st')"

definition waitForScale :: "int \<Rightarrow> scale_obj \<Rightarrow> wait_opts \<Rightarrow> cycle list
    \<Rightarrow> (unit completion \<times> poll_state) option" where
  "waitForScale start intendedScale opts cycles =
     waitForScale_loop start intendedScale opts cycles
       \<lparr>intendedScaleDcs = new_Set (Object_keys intendedScale), effects = []\<rparr>"

section \<open>The deploy command: waitForScale\<close>

text \<open>
  \<^verbatim>\<open>instancesObj.instances\<close> throws when the snapshot has no entry for the region, so
  the predicate takes the entry as it is read (\<open>None\<close> for \<^verbatim>\<open>undefined\<close>) and may fail.
\<close>

definition matchMinPresets_at :: "scale_preset \<Rightarrow> dc_instances option \<Rightarrow> error + bool" where
  "matchMinPresets_at scalePreset entry =
     (case entry of
        None \<Rightarrow> Inl (TypeError ''Cannot read property instances of undefined'')
      | Some instancesObj \<Rightarrow> Inr (matchMinPresets scalePreset instancesObj))"

text \<open>
  \<^verbatim>\<open>
  Object.keys(scale).reduce((result, dc) =>
    predicate(scale[dc], instances[dc]) ? [...result, dc] : result, [])
  \<close>
\<close>

fun reduce_presets :: "scale_obj \<Rightarrow> snapshot \<Rightarrow> (scale_preset \<Rightarrow> dc_instances option \<Rightarrow> error + bool)
    \<Rightarrow> dc list \<Rightarrow> dc list \<Rightarrow> error + dc list" where
  "reduce_presets scale insts predicate [] result = Inr result"
| "reduce_presets scale insts predicate (d # ds) result =
     (case map_of scale d of
        None \<Rightarrow> Inl (TypeError ''Cannot read property min of undefined'')
      | Some p \<Rightarrow>
          (case predicate p (insts d) of
             Inl e \<Rightarrow> Inl e
           | Inr b \<Rightarrow> reduce_presets scale insts predicate ds (if b then result @ [d] else result)))"

definition getMatchingScalePresets :: "scale_obj \<Rightarrow> snapshot
    \<Rightarrow> (scale_preset \<Rightarrow> dc_instances option \<Rightarrow> error + bool) \<Rightarrow> error + dc list" where
  "getMatchingScalePresets scale insts predicate =
     reduce_presets scale insts predicate (Object_keys scale) []"

datatype deploy_effect =
    RenderRemainingDCsWait "dc list"
  | CancelWait
  | GetDeploymentInstances
  | LogVerified dc int
  | DeploySleep int

record deploy_state =
  remainingMatches :: "dc list"
  deploy_effects :: "deploy_effect list"

text \<open>
  The lines printed for the new matches; each reads
  \<^verbatim>\<open>instances[dc].instances.length\<close> again.
\<close>

fun log_verified :: "snapshot \<Rightarrow> dc list \<Rightarrow> error + deploy_effect list" where
  "log_verified insts [] = Inr []"
| "log_verified insts (d # ds) =
     (case insts d of
        None \<Rightarrow> Inl (TypeError ''Cannot read property instances of undefined'')
      | Some obj \<Rightarrow>
          (case log_verified insts ds of
             Inl e \<Rightarrow> Inl e
           | Inr ls \<Rightarrow> Inr (LogVerified d (int (length (instances obj))) # ls)))"

text \<open>
  \<^verbatim>\<open>
  if (start + timeout <= Date.now()) { cancelWait(); throw new Error(...) }
  const instances = await getDeploymentInstances(now, deploymentId)
  const matches = new Set(await getMatchingScalePresets(scale, instances, matchMinPresets))
  const newMatches = new Set([...remainingMatches].filter(dc => matches.has(dc)))
  remainingMatches = new Set([...remainingMatches].filter(dc => !matches.has(dc)))
  if (newMatches.size !== 0) {
    if (cancelWait) cancelWait()
    for (const dc of newMatches) output.log(`Verified ${dc} (${instances[dc].instances.length}) ...`)
    if (remainingMatches.size === 0) return null
    else cancelWait = renderRemainingDCsWait(Array.from(remainingMatches))
  }
  await sleep(checkInterval)
  \<close>
  with \<^verbatim>\<open>checkInterval = 1000\<close> and \<^verbatim>\<open>timeout = ms('2m')\<close>, that is 120000.
\<close>

definition deploy_cycle :: "int \<Rightarrow> scale_obj \<Rightarrow> cycle \<Rightarrow> deploy_state \<Rightarrow> deploy_state turn" where
  "deploy_cycle start scale c st =
     (if start + 120000 \<le> clock c
      then Stop (Threw (Error timeout_message))
                (st\<lparr>deploy_effects := deploy_effects st @ [CancelWait]\<rparr>)
      else
        let st1 = st\<lparr>deploy_effects := deploy_effects st @ [GetDeploymentInstances]\<rparr> in
        case fetched c of
          Inl e \<Rightarrow> Stop (Threw e) st1
        | Inr insts \<Rightarrow>
            (case getMatchingScalePresets scale insts matchMinPresets_at of
               Inl e \<Rightarrow> Stop (Threw e) st1
             | Inr found \<Rightarrow>
                 (let matches = new_Set found;
                      newMatches = new_Set (filter (\<lambda>d. d \<in> set matches) (remainingMatches st1));
                      remaining = new_Set (filter (\<lambda>d. d \<notin> set matches) (remainingMatches st1));
                      st2 = st1\<lparr>remainingMatches := remaining\<rparr>
                  in
                    if newMatches \<noteq> [] then
                      (case log_verified insts newMatches of
                         Inl e \<Rightarrow> Stop (Threw e)
                                   (st2\<lparr>deploy_effects := deploy_effects st2 @ [CancelWait]\<rparr>)
                       | Inr ls \<Rightarrow>
                           (let st3 = st2\<lparr>deploy_effects := deploy_effects st2 @ [CancelWait] @ ls\<rparr>
                            in if remaining = [] then Stop (Returned ()) st3
                               else Continue
                                      (st3\<lparr>deploy_effects := deploy_effects st3
                                             @ [RenderRemainingDCsWait remaining, DeploySleep 1000]\<rparr>)))
                    else Continue (st2\<lparr>deploy_effects := deploy_effects st2 @ [DeploySleep 1000]\<rparr>))))"

fun deploy_waitForScale_loop :: "int \<Rightarrow> scale_obj \<Rightarrow> cycle list \<Rightarrow> deploy_state
    \<Rightarrow> (unit completion \<times> deploy_state) option" where
  "deploy_waitForScale_loop start scale [] st = None"
| "deploy_waitForScale_loop start scale (c # cs) st =
     (case deploy_cycle start scale c st of
        Stop r st' \<Rightarrow> Some (r, st')
      | Continue st' \<Rightarrow> deploy_waitForScale_loop start scale cs st')"

fun deploy_state_after :: "int \<Rightarrow> scale_obj \<Rightarrow> cycle list \<Rightarrow> deploy_state \<Rightarrow> deploy_state" where
  "deploy_state_after start scale [] st = st"
| "deploy_state_after start scale (c # cs) st =
     (case deploy_cycle start scale c st of
        Stop r st' \<Rightarrow> st'
      | Continue st' \<Rightarrow> deploy_state_after start scale cs st')"

definition deploy_waitForScale :: "int \<Rightarrow> scale_obj \<Rightarrow> cycle list
    \<Rightarrow> (unit completion \<times> deploy_state) option" where
  "deploy_waitForScale start scale cycles =
     deploy_waitForScale_loop start scale cycles
       \<lparr>remainingMatches = new_Set (Object_keys scale),
        deploy_effects = [RenderRemainingDCsWait (Object_keys scale)]\<rparr>"

section \<open>The deploy command: reading the build events\<close>

text \<open>
  An event of the stream, with the fields the loop reads: \<^verbatim>\<open>event.type\<close>,
  \<^verbatim>\<open>event.payload.value\<close> and \<^verbatim>\<open>event.payload.text\<close> (strings, as the \<^verbatim>\<open>Event\<close> type
  of the source declares them).
\<close>

record event =
  ev_type :: string
  payload_value :: string
  payload_text :: string

datatype out_line = Log string | ErrorOut string

definition newline :: char where
  "newline = CHR 0x0A"

text \<open>
  \<^verbatim>\<open>text.replace(/\n$/, '').replace(/^\n/, '')\<close>: one newline off the end, then one off
  the front.
\<close>

definition formatText :: "string \<Rightarrow> string" where
  "formatText text =
     (let t1 = (if text \<noteq> [] \<and> last text = newline then butlast text else text)
      in if t1 \<noteq> [] \<and> hd t1 = newline then tl t1 else t1)"

text \<open>\<^verbatim>\<open>s.split(c)\<close> for a one-character separator; the empty string gives \<^verbatim>\<open>['']\<close>.\<close>

fun split_on :: "char \<Rightarrow> string \<Rightarrow> string list" where
  "split_on c [] = [[]]"
| "split_on c (x # xs) =
     (if x = c then [] # split_on c xs
      else (case split_on c xs of
              [] \<Rightarrow> [[x]]
            | w # ws \<Rightarrow> (x # w) # ws))"

text \<open>\<^verbatim>\<open>v.replace(/^> /, '')\<close>\<close>

fun strip_quote_prefix :: "string \<Rightarrow> string" where
  "strip_quote_prefix (a # b # v) = (if a = CHR ''>'' \<and> b = CHR '' '' then v else a # b # v)"
| "strip_quote_prefix v = v"

text \<open>
  The two literals of the source that are not ASCII, in UTF-8: \<^verbatim>\<open>Building\<close> followed by
  an ellipsis (U+2026), and an upward triangle (U+25B2) followed by a space.
\<close>

definition building_text :: string where
  "building_text = ''Building'' @ [CHR 0xE2, CHR 0x80, CHR 0xA6]"

definition command_prefix :: string where
  "command_prefix = [CHR 0xE2, CHR 0x96, CHR 0xB2, CHR '' '']"

text \<open>
  What the loop prints for an event that does not end it:
  \<^verbatim>\<open>
  if (event.type === 'build-start') output.log('Building...')
  else if (event.type === 'command') output.log(`^ ${formatText(event.payload.text)}`)
  else if (event.type === 'stdout' || event.type === 'stderr')
    formatText(event.payload.text).split('\n').forEach(v => output.log(`${v.replace(/^> /, '')}`))
  \<close>
\<close>

definition print_event :: "event \<Rightarrow> out_line list" where
  "print_event ev =
     (if ev_type ev = ''build-start'' then [Log building_text]
      else if ev_type ev = ''command'' then [Log (command_prefix @ formatText (payload_text ev))]
      else if ev_type ev = ''stdout'' \<or> ev_type ev = ''stderr''
        then map (\<lambda>v. Log (strip_quote_prefix v)) (split_on newline (formatText (payload_text ev)))
      else [])"

text \<open>
  How the asynchronous iterator behaves once the events it has delivered are consumed:
  it is done, it throws (the connection was cut), or it never yields again.
\<close>

datatype stream_end = Done | Severed error | Blocked

text \<open>
  How the \<^verbatim>\<open>for await\<close> statement is left: by \<^verbatim>\<open>break\<close>, by the end of the iterator
  (in both cases \<^verbatim>\<open>sync\<close> goes on to the scale verification), by the end of the process,
  or by the iterator's exception.

  Modelled from the spec: \<^verbatim>\<open>exit\<close> of \<^verbatim>\<open>util/exit\<close> is not part of the sources at hand;
  \<^verbatim>\<open>await exit(code)\<close> is taken to end the process with that code and never to resume
  the caller, which is how every call site of the file uses it (an error message, then
  \<^verbatim>\<open>await exit(1)\<close>, with no \<^verbatim>\<open>return\<close> after it).
\<close>

datatype loop_exit = Break | Drained | ProcessExit int | IteratorThrew error

record consume_result =
  left_by :: loop_exit
  printed :: "out_line list"
  unread :: "event list"

text \<open>
  \<^verbatim>\<open>
  for await (const event of events) {
    if (event.type === 'state-change' && event.payload.value === 'READY') {
      output.log(`Build completed`); break
    }
    if (event.type === 'state-change' && event.payload.value === 'ERROR') {
      output.error(`Build failed`); await exit(1)
    }
    ... print the event ...
  }
  \<close>
  The result is \<open>None\<close> when the iterator blocks for ever with the loop still waiting.
\<close>

fun sync_events :: "event list \<Rightarrow> stream_end \<Rightarrow> out_line list \<Rightarrow> consume_result option" where
  "sync_events [] Done out = Some \<lparr>left_by = Drained, printed = out, unread = []\<rparr>"
| "sync_events [] (Severed e) out = Some \<lparr>left_by = IteratorThrew e, printed = out, unread = []\<rparr>"
| "sync_events [] Blocked out = None"
| "sync_events (ev # evs) fin out =
     (if ev_type ev = ''state-change'' \<and> payload_value ev = ''READY''
      then Some \<lparr>left_by = Break, printed = out @ [Log ''Build completed''], unread = evs\<rparr>
      else if ev_type ev = ''state-change'' \<and> payload_value ev = ''ERROR''
      then Some \<lparr>left_by = ProcessExit 1, printed = out @ [ErrorOut ''Build failed''], unread = evs\<rparr>
      else sync_events evs fin (out @ print_event ev))"

definition is_state_change :: "string \<Rightarrow> event \<Rightarrow> bool" where
  "is_state_change v ev = (ev_type ev = ''state-change'' \<and> payload_value ev = v)"

section \<open>The scale command: onExit\<close>

text \<open>
  \<^verbatim>\<open>
  function onExit(fn) {
    let exit = false;
    const onExit_ = () => { if (exit) return; fn(); exit = true; }
    process.on('SIGTERM', onExit_); process.on('SIGINT', onExit_); process.on('exit', onExit_);
    return () => { process.removeListener(...) x 3 }
  }
  \<close>
  The callback is any function. What it can do that matters to the handler is written
  as a list of commands: change a state \<open>'w\<close> of its own, throw, or emit (when a
  condition on its state holds) one of the three events the handler listens to, which
  runs the handler at once, inside the callback, as \<^verbatim>\<open>process.emit\<close> does.
\<close>

datatype 'w cmd = Update "'w \<Rightarrow> 'w" | Throw error | EmitIf "'w \<Rightarrow> bool"

type_synonym 'w callback = "'w cmd list"

text \<open>How a run of the handler or of the callback ends: it returns, or it throws.\<close>

datatype ending = Normal | Raised error

text \<open>
  The variable \<^verbatim>\<open>exit\<close> of the closure and the state of the callback. \<open>fn_calls\<close>
  counts the invocations of the callback; it is the only field that is not in the
  source.
\<close>

record 'w exit_state =
  exit_flag :: bool
  world :: 'w
  fn_calls :: nat

text \<open>
  \<open>onExit_handler\<close> is the closure \<^verbatim>\<open>onExit_\<close>: it returns if the flag is set, otherwise
  it calls \<^verbatim>\<open>fn\<close> and sets the flag once \<^verbatim>\<open>fn\<close> has returned; an exception of \<^verbatim>\<open>fn\<close>
  leaves through the handler with the flag as it is. \<open>run_callback\<close> runs the rest of the
  body of \<^verbatim>\<open>fn\<close>; an emitted event calls the handler, and an exception of the handler
  leaves through the callback. The first argument bounds the depth of the calls of the
  handler inside one another; the result is \<open>None\<close> when the bound is reached.
\<close>

fun onExit_handler :: "nat \<Rightarrow> 'w callback \<Rightarrow> 'w exit_state \<Rightarrow> (ending \<times> 'w exit_state) option"
  and run_callback :: "nat \<Rightarrow> 'w callback \<Rightarrow> 'w cmd list \<Rightarrow> 'w exit_state
    \<Rightarrow> (ending \<times> 'w exit_state) option" where
  "onExit_handler 0 fn s = None"
| "onExit_handler (Suc k) fn s =
     (if exit_flag s then Some (Normal, s)
      else
        (case run_callback k fn fn (s\<lparr>fn_calls := Suc (fn_calls s)\<rparr>) of
           None \<Rightarrow> None
         | Some (Raised e, s') \<Rightarrow> Some (Raised e, s')
         | Some (Normal, s') \<Rightarrow> Some (Normal, s'\<lparr>exit_flag := True\<rparr>)))"
| "run_callback k fn [] s = Some (Normal, s)"
| "run_callback k fn (Update f # cs) s = run_callback k fn cs (s\<lparr>world := f (world s)\<rparr>)"
| "run_callback k fn (Throw e # cs) s = Some (Raised e, s)"
| "run_callback k fn (EmitIf p # cs) s =
     (if p (world s) then
        (case onExit_handler k fn s of
           None \<Rightarrow> None
         | Some (Raised e, s') \<Rightarrow> Some (Raised e, s')
         | Some (Normal, s') \<Rightarrow> run_callback k fn cs s')
      else run_callback k fn cs s)"

text \<open>The state of a fresh \<^verbatim>\<open>onExit(fn)\<close>: the flag is \<^verbatim>\<open>false\<close>.\<close>

definition onExit :: "'w \<Rightarrow> 'w exit_state" where
  "onExit w = \<lparr>exit_flag = False, world = w, fn_calls = 0\<rparr>"

text \<open>
  The handler run by \<open>n\<close> deliveries from outside, one after the other (a signal, then
  another, then the \<^verbatim>\<open>exit\<close> event); an exception of one delivery does not undo what it
  did.
\<close>

primrec deliver :: "nat \<Rightarrow> nat \<Rightarrow> 'w callback \<Rightarrow> 'w exit_state \<Rightarrow> 'w exit_state option" where
  "deliver 0 k fn s = Some s"
| "deliver (Suc n) k fn s =
     (case onExit_handler k fn s of
        None \<Rightarrow> None
      | Some (r, s') \<Rightarrow> deliver n k fn s')"

text \<open>A callback that only works on its state.\<close>

fun is_update :: "'w cmd \<Rightarrow> bool" where
  "is_update (Update f) = True"
| "is_update c = False"

section \<open>The scale command: main\<close>

text \<open>
  The parsed command line (\<^verbatim>\<open>argv['--help']\<close>, \<^verbatim>\<open>argv['--no-verify']\<close>,
  \<^verbatim>\<open>argv['--verify-timeout']\<close>, \<^verbatim>\<open>argv._\<close>) and the deployment that
  \<^verbatim>\<open>now.findDeployment\<close> resolves.
\<close>

record argv =
  opt_help :: bool
  opt_no_verify :: bool
  opt_verify_timeout :: "string option"
  positional :: "string list"

record deployment =
  uid :: string
  url :: string
  dep_type :: string
  dep_state :: string

text \<open>
  What \<^verbatim>\<open>main\<close> gets from outside: the result of \<^verbatim>\<open>arg(...)\<close>, the \<^verbatim>\<open>ms\<close> package on the
  string of \<^verbatim>\<open>--verify-timeout\<close> (\<open>None\<close> when the result is not an integer),
  \<^verbatim>\<open>normalizeRegionsList\<close>, the two calls on the API, the clock when the verification
  starts and the turns of its polling loop.
\<close>

record scale_env =
  parsed :: "error + argv"
  ms :: "string \<Rightarrow> int option"
  normalizeRegionsList :: "string list \<Rightarrow> error + dc list"
  findDeployment :: "string \<Rightarrow> error + deployment"
  setScale :: "string \<Rightarrow> scale_obj \<Rightarrow> error + unit"
  verify_start :: int
  cycles :: "cycle list"

text \<open>
  The effects of \<^verbatim>\<open>main\<close> that are recorded: the messages (by their fixed part), the
  help text, the calls on the API client, the handler of \<^verbatim>\<open>onExit\<close> and what the
  polling does. Spinners and debug lines of \<^verbatim>\<open>main\<close> are left out.
\<close>

datatype cli_effect =
    HandleError error
  | Help
  | ErrorMsg string
  | FindDeployment string
  | LogFetched string
  | NowClose
  | SetScale string scale_obj
  | ConsoleLogSuccessMsg
  | WaitDcs "dc list"
  | InstallOnExit
  | Poll poll_effect
  | CancelVerifyWait
  | CancelExit
  | SuccessVerified

type_synonym main_result = "int completion \<times> cli_effect list"

text \<open>\<^verbatim>\<open>argv._[i]\<close>, \<open>None\<close> for \<^verbatim>\<open>undefined\<close>.\<close>

definition arg_at :: "string list \<Rightarrow> nat \<Rightarrow> string option" where
  "arg_at xs i = (if i < length xs then Some (xs ! i) else None)"

text \<open>\<^verbatim>\<open>/^\d+$/.test(v)\<close>\<close>

definition isNumeric :: "string \<Rightarrow> bool" where
  "isNumeric v = (v \<noteq> [] \<and> list_all (\<lambda>c. c \<in> set ''0123456789'') v)"

definition isMinOrMaxArgument :: "string \<Rightarrow> bool" where
  "isMinOrMaxArgument v = (v = ''auto'' \<or> isNumeric v)"

text \<open>\<^verbatim>\<open>Number(v)\<close> on a string of decimal digits.\<close>

definition Number_of :: "string \<Rightarrow> int" where
  "Number_of v = foldl (\<lambda>a c. 10 * a + (int (of_char c) - 48)) 0 v"

definition toMin :: "string \<Rightarrow> scale_val" where
  "toMin v = (if v = ''auto'' then Auto else Num (Number_of v))"

definition toMax :: "string \<Rightarrow> scale_val" where
  "toMax v = (if v = ''auto'' then Auto else Num (Number_of v))"

text \<open>
  The checks on the command line up to the time string:
  \<^verbatim>\<open>
  try { argv = arg(...) } catch (err) { handleError(err); return 1 }
  if (argv['--help']) { help(); return 2 }
  id = argv._[0]
  if (id === 'ls') { error(...); return 1 }
  if (argv._.length < 2) { error(...); help(); return 1 }
  if (argv._.length > 4) { error(...); help(); return 1 }
  if (argv['--verify-timeout'] != null && argv['--no-verify']) { error(...); return 1 }
  if (null != argv['--verify-timeout'] && !Number.isInteger(ms(argv['--verify-timeout']))) { error(...); return 1 }
  \<close>
\<close>

definition main_arguments :: "scale_env \<Rightarrow> main_result + argv" where
  "main_arguments env =
     (case parsed env of
        Inl err \<Rightarrow> Inl (Returned 1, [HandleError err])
      | Inr a \<Rightarrow>
          if opt_help a then Inl (Returned 2, [Help])
          else if arg_at (positional a) 0 = Some ''ls''
            then Inl (Returned 1, [ErrorMsg ''now scale ls has been deprecated''])
          else if length (positional a) < 2
            then Inl (Returned 1, [ErrorMsg ''expects at least two arguments'', Help])
          else if length (positional a) > 4
            then Inl (Returned 1, [ErrorMsg ''expects at most four arguments'', Help])
          else if opt_verify_timeout a \<noteq> None \<and> opt_no_verify a
            then Inl (Returned 1, [ErrorMsg ''--verify-timeout and --no-verify cannot be used at once''])
          else if (case opt_verify_timeout a of None \<Rightarrow> False | Some t \<Rightarrow> ms env t = None)
            then Inl (Returned 1, [ErrorMsg ''Invalid time string for --verify-timeout''])
          else Inr a)"

text \<open>
  The legacy form \<^verbatim>\<open>now scale <url> <min> [max]\<close>: the new value of \<^verbatim>\<open>dcIdOrMin\<close> and,
  when the form applies, \<^verbatim>\<open>min\<close> and \<^verbatim>\<open>max\<close>.
  \<^verbatim>\<open>
  if (isMinOrMaxArgument(dcIdOrMin)) {
    min = toMin(dcIdOrMin)
    const maybeMax = argv._[2];
    if (maybeMax !== undefined) {
      if (isMinOrMaxArgument(maybeMax)) max = toMax(maybeMax); else { error(...); return 1 }
      if (argv._.length > 3) { error(...); return 1 }
    } else {
      if (min === AUTO) { min = 0; max = AUTO; } else max = min;
    }
    dcIdOrMin = "all";
  }
  \<close>
\<close>

definition legacy_min_max :: "string list \<Rightarrow> string
    \<Rightarrow> main_result + (string \<times> (scale_val \<times> scale_val) option)" where
  "legacy_min_max pos dcIdOrMin =
     (if isMinOrMaxArgument dcIdOrMin then
        (let mn = toMin dcIdOrMin in
         case arg_at pos 2 of
           Some maybeMax \<Rightarrow>
             if isMinOrMaxArgument maybeMax then
               (if length pos > 3
                then Inl (Returned 1, [ErrorMsg ''Invalid number of arguments''])
                else Inr (''all'', Some (mn, toMax maybeMax)))
             else Inl (Returned 1, [ErrorMsg ''Expected a <max> argument''])
         | None \<Rightarrow>
             if mn = Auto then Inr (''all'', Some (Num 0, Auto))
             else Inr (''all'', Some (mn, mn)))
      else Inr (dcIdOrMin, None))"

text \<open>
  \<^verbatim>\<open>min\<close> and \<^verbatim>\<open>max\<close> when the legacy form has not set them:
  \<^verbatim>\<open>
  if (argv._[2] != null) {
    if (isMinOrMaxArgument(argv._[2])) min = toMin(argv._[2]); else { error(...); return 1 }
    if (argv._[3] != null) {
      if (isMinOrMaxArgument(argv._[3])) max = toMax(argv._[3]); else { error(...); return 1 }
    } else { if (min === AUTO) max = AUTO; else max = min; }
  } else { min = 0; max = AUTO; }
  \<close>
\<close>

definition given_min_max :: "string list \<Rightarrow> main_result + (scale_val \<times> scale_val)" where
  "given_min_max pos =
     (case arg_at pos 2 of
        Some a2 \<Rightarrow>
          if isMinOrMaxArgument a2 then
            (let mn = toMin a2 in
             case arg_at pos 3 of
               Some a3 \<Rightarrow>
                 if isMinOrMaxArgument a3 then Inr (mn, toMax a3)
                 else Inl (Returned 1, [ErrorMsg ''Invalid <max> parameter''])
             | None \<Rightarrow> if mn = Auto then Inr (mn, Auto) else Inr (mn, mn))
          else Inl (Returned 1, [ErrorMsg ''Invalid <min> parameter''])
      | None \<Rightarrow> Inr (Num 0, Auto))"

text \<open>
  The regions: \<^verbatim>\<open>normalizeRegionsList(dcIdOrMin.split(','))\<close>, with its two coded errors
  reported and any other error thrown on.
\<close>

definition main_dcs :: "scale_env \<Rightarrow> string \<Rightarrow> main_result + dc list" where
  "main_dcs env dcIdOrMin =
     (case normalizeRegionsList env (split_on CHR '','' dcIdOrMin) of
        Inr dcIds \<Rightarrow> Inr dcIds
      | Inl err \<Rightarrow>
          (case err of
             CodedError code ident \<Rightarrow>
               if code = ''INVALID_ID''
                 then Inl (Returned 1, [ErrorMsg ''not a valid region or DC identifier''])
               else if code = ''INVALID_ALL''
                 then Inl (Returned 1, [ErrorMsg ''all cannot be used alongside other identifiers''])
               else Inl (Threw err, [])
           | _ \<Rightarrow> Inl (Threw err, [])))"

text \<open>\<^verbatim>\<open>for (const dc of dcIds) scaleArgs[dc] = { min, max }\<close>\<close>

definition make_scaleArgs :: "dc list \<Rightarrow> scale_val \<Rightarrow> scale_val \<Rightarrow> scale_obj" where
  "make_scaleArgs dcIds mn mx =
     map (\<lambda>d. (d, \<lparr>preset_min = mn, preset_max = mx\<rparr>)) (new_Set dcIds)"

text \<open>
  Resolving the deployment and saving the rules:
  \<^verbatim>\<open>
  try { deployment = await now.findDeployment(id) }
  catch (err) { if (err.status === 404) { error(...); now.close(); return 1 } else throw err }
  log(`Fetched deployment ...`)
  if (deployment.type === TYPE_STATIC) { error(...); now.close(); return 1 }
  if (deployment.state === STATE_ERROR) { error(...); now.close(); return 1 }
  ...
  try { await setScale(now, deployment.uid, scaleArgs) }
  catch (err) {
    if (err.status === 400) {
      switch (err.code) {
        case 'forbidden_min_instances': error(...); break;
        case 'forbidden_max_instances': error(...); break;
        case 'wrong_min_max_relation': error(...); break;
        default: throw err;
      }
      return 1;
    } else throw err;
  }
  \<close>
\<close>

definition main_deployment :: "scale_env \<Rightarrow> string \<Rightarrow> dc list \<Rightarrow> scale_val \<Rightarrow> scale_val
    \<Rightarrow> main_result + (deployment \<times> scale_obj \<times> cli_effect list)" where
  "main_deployment env ident dcIds mn mx =
     (case findDeployment env ident of
        Inl err \<Rightarrow>
          (case err of
             ApiError status code \<Rightarrow>
               if status = 404
                 then Inl (Returned 1, [FindDeployment ident, ErrorMsg ''Failed to find deployment'', NowClose])
               else Inl (Threw err, [FindDeployment ident])
           | _ \<Rightarrow> Inl (Threw err, [FindDeployment ident]))
      | Inr dep \<Rightarrow>
          (let effs = [FindDeployment ident, LogFetched (url dep)] in
           if dep_type dep = ''STATIC''
             then Inl (Returned 1, effs @ [ErrorMsg ''Scaling rules cannot be set on static deployments'', NowClose])
           else if dep_state dep = ''ERROR''
             then Inl (Returned 1, effs @ [ErrorMsg ''Cannot scale a deployment in the ERROR state'', NowClose])
           else
             (let scaleArgs = make_scaleArgs dcIds mn mx;
                  effs2 = effs @ [SetScale (uid dep) scaleArgs]
              in case setScale env (uid dep) scaleArgs of
                   Inr _ \<Rightarrow> Inr (dep, scaleArgs, effs2)
                 | Inl err \<Rightarrow>
                     (case err of
                        ApiError status code \<Rightarrow>
                          if status = 400 then
                            (if code = ''forbidden_min_instances''
                               then Inl (Returned 1, effs2 @ [ErrorMsg ''more min instances than the plan allows''])
                             else if code = ''forbidden_max_instances''
                               then Inl (Returned 1, effs2 @ [ErrorMsg ''more max instances than the plan allows''])
                             else if code = ''wrong_min_max_relation''
                               then Inl (Returned 1, effs2 @ [ErrorMsg ''Min number of instances cannot be higher than max''])
                             else Inl (Threw err, effs2))
                          else Inl (Threw err, effs2)
                      | _ \<Rightarrow> Inl (Threw err, effs2)))))"

text \<open>
  \<^verbatim>\<open>main\<close> up to the point where the rules are saved: an early end of the command, or
  the command line, the deployment, the rules and the effects so far.
\<close>

definition main_prepare :: "scale_env
    \<Rightarrow> main_result + (argv \<times> deployment \<times> scale_obj \<times> cli_effect list)" where
  "main_prepare env =
     (case main_arguments env of
        Inl r \<Rightarrow> Inl r
      | Inr a \<Rightarrow>
          (case (arg_at (positional a) 0, arg_at (positional a) 1) of
             (Some ident, Some dcIdOrMin) \<Rightarrow>
               (case legacy_min_max (positional a) dcIdOrMin of
                  Inl r \<Rightarrow> Inl r
                | Inr (dcs, legacy) \<Rightarrow>
                    (case main_dcs env dcs of
                       Inl r \<Rightarrow> Inl r
                     | Inr dcIds \<Rightarrow>
                         (case (case legacy of Some mm \<Rightarrow> Inr mm
                                            | None \<Rightarrow> given_min_max (positional a)) of
                            Inl r \<Rightarrow> Inl r
                          | Inr (mn, mx) \<Rightarrow>
                              (case main_deployment env ident dcIds mn mx of
                                 Inl r \<Rightarrow> Inl r
                               | Inr (dep, scaleArgs, effs) \<Rightarrow> Inr (a, dep, scaleArgs, effs)))))
           | _ \<Rightarrow> Inl (Threw (TypeError ''Cannot read property split of undefined''), [])))"

text \<open>
  The timeout handed to \<^verbatim>\<open>waitForScale\<close>:
  \<^verbatim>\<open>ms(argv['--verify-timeout'] != null ? argv['--verify-timeout'] : '2m')\<close>, where
  \<^verbatim>\<open>ms('2m')\<close> is 120000; a time string that is not an integer has been refused before.
\<close>

definition verify_timeout :: "scale_env \<Rightarrow> argv \<Rightarrow> int" where
  "verify_timeout env a =
     (case opt_verify_timeout a of
        None \<Rightarrow> 120000
      | Some t \<Rightarrow> (case ms env t of Some n \<Rightarrow> n | None \<Rightarrow> 120000))"

text \<open>
  \<^verbatim>\<open>main\<close> once the rules are saved:
  \<^verbatim>\<open>
  if (deployment.type === 'BINARY' || argv['--no-verify']) {
    console.log(successMsg); now.close(); return 0;
  }
  console.log(successMsg)
  const cancelVerifyWait = waitDcs(scaleArgs, output)
  const cancelExit = onExit(...)
  try {
    await waitForScale(now, deployment.uid, scaleArgs, output,
      { timeout: ms(...), checkInterval: 500, onDCScaled(id, n) { cancelVerifyWait(id, n) } })
    cancelVerifyWait()
  } catch (err) { cancelVerifyWait(); throw err } finally { cancelExit() }
  success(`Scale state verified ...`); now.close(); return 0;
  \<close>
\<close>

definition main_verify :: "scale_env \<Rightarrow> argv \<Rightarrow> deployment \<Rightarrow> scale_obj \<Rightarrow> cli_effect list
    \<Rightarrow> main_result option" where
  "main_verify env a dep scaleArgs effs =
     (if dep_type dep = ''BINARY'' \<or> opt_no_verify a
      then Some (Returned 0, effs @ [ConsoleLogSuccessMsg, NowClose])
      else
        (let effs1 = effs @ [ConsoleLogSuccessMsg, WaitDcs (Object_keys scaleArgs), InstallOnExit];
             opts = \<lparr>timeout = verify_timeout env a, checkInterval = 500, onDCScaled = True\<rparr>
         in case waitForScale (verify_start env) scaleArgs opts (cycles env) of
              None \<Rightarrow> None
            | Some (Returned _, st) \<Rightarrow>
                Some (Returned 0, effs1 @ map Poll (effects st)
                                  @ [CancelVerifyWait, CancelExit, SuccessVerified, NowClose])
            | Some (Threw e, st) \<Rightarrow>
                Some (Threw e, effs1 @ map Poll (effects st) @ [CancelVerifyWait, CancelExit])))"

definition main :: "scale_env \<Rightarrow> main_result option" where
  "main env =
     (case main_prepare env of
        Inl r \<Rightarrow> Some r
      | Inr (a, dep, scaleArgs, effs) \<Rightarrow> main_verify env a dep scaleArgs effs)"

text \<open>
  The effects that belong to the verification: its spinner, its handler for the exit of
  the process, and everything the polling does.
\<close>

definition is_verification :: "cli_effect \<Rightarrow> bool" where
  "is_verification e =
     (case e of Poll _ \<Rightarrow> True | WaitDcs _ \<Rightarrow> True | InstallOnExit \<Rightarrow> True | _ \<Rightarrow> False)"

section \<open>Inputs used in the examples\<close>

text \<open>Events as the stream delivers them: a change of state, and an event with a text.\<close>

definition state_change :: "string \<Rightarrow> event" where
  "state_change v = \<lparr>ev_type = ''state-change'', payload_value = v, payload_text = []\<rparr>"

definition text_event :: "string \<Rightarrow> string \<Rightarrow> event" where
  "text_event kind t = \<lparr>ev_type = kind, payload_value = [], payload_text = t\<rparr>"





text \<open>
  A run of \<^verbatim>\<open>now scale my-app.now.sh sfo1 1 2\<close>, with or without \<^verbatim>\<open>--no-verify\<close>, in which
  every call on the API succeeds and the deployment is of type \<^verbatim>\<open>NPM\<close>.
\<close>

definition example_env :: "bool \<Rightarrow> scale_env" where
  "example_env no_verify =
     \<lparr>parsed = Inr \<lparr>opt_help = False, opt_no_verify = no_verify, opt_verify_timeout = None,
                     positional = [''my-app.now.sh'', ''sfo1'', ''1'', ''2'']\<rparr>,
      ms = (\<lambda>t. None),
      normalizeRegionsList = Inr,
      findDeployment = (\<lambda>ident. Inr \<lparr>uid = ''dpl_1'', url = ident, dep_type = ''NPM'', dep_state = ''READY''\<rparr>),
      setScale = (\<lambda>ident scale. Inr ()),
      verify_start = 0,
      cycles = []\<rparr>"

section \<open>Properties of the two convergence checks\<close>

lemma isInstanceCountBetween_Num:
  "isInstanceCountBetween v (Num mn) (Num mx) = (mn \<le> v \<and> v \<le> mx)"
  by (auto simp: isInstanceCountBetween_def js_gt_def)

lemma isInstanceCountBetween_Auto:
  "isInstanceCountBetween v (Num mn) Auto = (mn \<le> v)"
  by (auto simp: isInstanceCountBetween_def js_gt_def)

text \<open>
  C1. The bounds of \<open>isInstanceCountBetween\<close> are inclusive. For a constraint with
  \<open>min \<le> max\<close> (the invariant of a region constraint) a count equal to \<open>min\<close> and a
  count equal to \<open>max\<close> are accepted; a count of \<open>min - 1\<close> is refused whatever the upper
  bound, a count of \<open>max + 1\<close> is refused whatever the lower bound; and with the upper
  bound \<^verbatim>\<open>'auto'\<close> every count from \<open>min\<close> upwards is accepted.
\<close>

theorem isInstanceCountBetween_inclusive:
  "(mn \<le> mx \<longrightarrow> isInstanceCountBetween mn (Num mn) (Num mx)
                \<and> isInstanceCountBetween mx (Num mn) (Num mx))
   \<and> \<not> isInstanceCountBetween (mn - 1) (Num mn) hi
   \<and> \<not> isInstanceCountBetween (mx + 1) lo (Num mx)
   \<and> (mn \<le> v \<longrightarrow> isInstanceCountBetween v (Num mn) Auto)"
  by (cases lo)
     (simp_all add: isInstanceCountBetween_Num isInstanceCountBetween_Auto,
      simp_all add: isInstanceCountBetween_def js_gt_def)

theorem isInstanceCountBetween_inclusive_witness:
  "(2::int) \<le> 5 \<and> isInstanceCountBetween 2 (Num 2) (Num 5) \<and> isInstanceCountBetween 5 (Num 2) (Num 5)
   \<and> \<not> isInstanceCountBetween 1 (Num 2) (Num 5)
   \<and> \<not> isInstanceCountBetween 6 (Num 2) (Num 5)
   \<and> (2::int) \<le> 40 \<and> isInstanceCountBetween 40 (Num 2) Auto"
  using isInstanceCountBetween_inclusive [of 2 5 "Num 5" "Num 2" 40] by simp

text \<open>
  C2, as stated, fails: the deploy command's \<open>matchMinPresets\<close> and the scale command's
  \<open>isInstanceCountBetween\<close> do not decide alike. For the preset \<open>{min: 0, max: 1}\<close> and a
  region with no instance the former says no (its threshold is \<open>max(1, min) = 1\<close>), the
  latter yes.
\<close>

theorem deploy_and_scale_checks_differ:
  "\<not> matchMinPresets \<lparr>preset_min = Num 0, preset_max = Num 1\<rparr> \<lparr>instances = []\<rparr>
   \<and> isInstanceCountBetween (int (length (instances \<lparr>instances = []\<rparr>))) (Num 0) (Num 1)"
  by (simp add: matchMinPresets_def isInstanceCountBetween_def js_gt_def)

text \<open>
  C2, amended. \<open>matchMinPresets\<close> never reads \<open>max\<close>: for a numeric \<open>min\<close> it holds
  exactly when the count is at least \<open>max(1, min)\<close>, which is the scale command's check
  with the lower bound \<open>max(1, min)\<close> and no upper bound.
\<close>

theorem matchMinPresets_threshold:
  "matchMinPresets \<lparr>preset_min = Num mn, preset_max = mx\<rparr> obs
     = isInstanceCountBetween (int (length (instances obs))) (Num (max 1 mn)) Auto"
  by (auto simp: matchMinPresets_def isInstanceCountBetween_def js_gt_def)

section \<open>Properties of one poll cycle of the scale command\<close>

lemma set_new_Set [simp]: "set (new_Set xs) = set xs"
  by (simp add: new_Set_def)

lemma distinct_new_Set [simp]: "distinct (new_Set xs)"
  by (simp add: new_Set_def)

lemma for_dcs_no_error:
  "set xs \<subseteq> fst ` set intendedScale \<Longrightarrow> \<exists>st'. for_dcs intendedScale opts data xs st = Inr st'"
proof (induction xs arbitrary: st)
  case Nil
  then show ?case by simp
next
  case (Cons d xs)
  then have "map_of intendedScale d \<noteq> None"
    by (simp add: map_of_eq_None_iff)
  then obtain p where p: "map_of intendedScale d = Some p" by auto
  from Cons have xs: "set xs \<subseteq> fst ` set intendedScale" by simp
  show ?case
    using p Cons.IH [OF xs] by (simp add: Let_def split: option.split)
qed

lemma for_dcs_subset:
  "for_dcs intendedScale opts data xs st = Inr st'
     \<Longrightarrow> set (intendedScaleDcs st') \<subseteq> set (intendedScaleDcs st)"
proof (induction xs arbitrary: st)
  case Nil
  then show ?case by simp
next
  case (Cons d xs)
  then show ?case
    by (fastforce simp: Let_def split: option.splits if_splits)
qed

lemma for_dcs_length:
  "for_dcs intendedScale opts data xs st = Inr st'
     \<Longrightarrow> length (intendedScaleDcs st') \<le> length (intendedScaleDcs st)"
proof (induction xs arbitrary: st)
  case Nil
  then show ?case by simp
next
  case (Cons d xs)
  show ?case
  proof (cases "data d")
    case None
    with Cons.prems show ?thesis by auto
  next
    case (Some cur)
    show ?thesis
    proof (cases "map_of intendedScale d")
      case None
      with Some Cons.prems show ?thesis by simp
    next
      case (Some p)
      note p = this
      show ?thesis
      proof (cases "isInstanceCountBetween (int (length (instances cur))) (preset_min p) (preset_max p)")
        case True
        with Cons.prems \<open>data d = Some cur\<close> p
        have "length (intendedScaleDcs st') \<le> length (removeAll d (intendedScaleDcs st))"
          using Cons.IH by (fastforce simp: Let_def)
        also have "\<dots> \<le> length (intendedScaleDcs st)"
          by (rule length_removeAll_less_eq)
        finally show ?thesis .
      next
        case False
        with Cons.prems \<open>data d = Some cur\<close> p show ?thesis
          using Cons.IH by (fastforce simp: Let_def)
      qed
    qed
  qed
qed

lemma for_dcs_keeps:
  "for_dcs intendedScale opts data xs st = Inr st' \<Longrightarrow> x \<in> set (intendedScaleDcs st)
     \<Longrightarrow> x \<notin> set xs \<or> data x = None \<Longrightarrow> x \<in> set (intendedScaleDcs st')"
proof (induction xs arbitrary: st)
  case Nil
  then show ?case by simp
next
  case (Cons d xs)
  then show ?case
    by (fastforce simp: Let_def split: option.splits if_splits)
qed






section \<open>Properties of the polling loops\<close>

lemma poll_cycle_timeout:
  "start + timeout opts \<le> clock c
     \<Longrightarrow> poll_cycle start intendedScale opts c st = Stop (Threw (Error timeout_message)) st"
  by (simp add: poll_cycle_def)

lemma deploy_cycle_timeout:
  "start + 120000 \<le> clock c
     \<Longrightarrow> deploy_cycle start scale c st
           = Stop (Threw (Error timeout_message)) (st\<lparr>deploy_effects := deploy_effects st @ [CancelWait]\<rparr>)"
  by (simp add: deploy_cycle_def)

lemma poll_cycle_absent:
  assumes r: "r \<in> set (intendedScaleDcs st)"
    and keys: "set (intendedScaleDcs st) \<subseteq> fst ` set intendedScale"
    and early: "clock c < start + timeout opts"
    and data: "fetched c = Inr data" "data r = None"
  shows "\<exists>st'. poll_cycle start intendedScale opts c st = Continue st'
           \<and> r \<in> set (intendedScaleDcs st')
           \<and> set (intendedScaleDcs st') \<subseteq> fst ` set intendedScale"
proof -
  let ?st1 = "st\<lparr>effects := effects st @ [FetchInstances]\<rparr>"
  have "set (intendedScaleDcs ?st1) \<subseteq> fst ` set intendedScale" using keys by simp
  from for_dcs_no_error [OF this]
  obtain st2 where st2: "for_dcs intendedScale opts data (intendedScaleDcs ?st1) ?st1 = Inr st2"
    by blast
  have r2: "r \<in> set (intendedScaleDcs st2)"
    using for_dcs_keeps [OF st2] r data(2) by simp
  have sub: "set (intendedScaleDcs st2) \<subseteq> fst ` set intendedScale"
    using for_dcs_subset [OF st2] keys by auto
  from r2 have ne: "intendedScaleDcs st2 \<noteq> []" by auto
  have "poll_cycle start intendedScale opts c st
          = Continue (st2\<lparr>effects := effects st2 @ [Sleep (checkInterval opts)]\<rparr>)"
    using early data(1) st2 ne by (simp add: poll_cycle_def)
  then show ?thesis using r2 sub by simp
qed

lemma waitForScale_loop_absent:
  assumes "r \<in> set (intendedScaleDcs st)"
    and "set (intendedScaleDcs st) \<subseteq> fst ` set intendedScale"
    and "\<forall>c\<in>set pre. clock c < start + timeout opts \<and> (\<exists>data. fetched c = Inr data \<and> data r = None)"
    and "start + timeout opts \<le> clock c"
  shows "\<exists>st'. waitForScale_loop start intendedScale opts (pre @ c # post) st
                 = Some (Threw (Error timeout_message), st')
           \<and> r \<in> set (intendedScaleDcs st')"
  using assms
proof (induction pre arbitrary: st)
  case Nil
  then show ?case by (simp add: poll_cycle_timeout)
next
  case (Cons a pre)
  from Cons.prems(3) obtain data where a: "clock a < start + timeout opts"
    "fetched a = Inr data" "data r = None" by auto
  from poll_cycle_absent [OF Cons.prems(1,2) a]
  obtain st1 where st1: "poll_cycle start intendedScale opts a st = Continue st1"
    "r \<in> set (intendedScaleDcs st1)" "set (intendedScaleDcs st1) \<subseteq> fst ` set intendedScale"
    by blast
  from Cons.prems(3) have rest: "\<forall>c\<in>set pre. clock c < start + timeout opts
      \<and> (\<exists>data. fetched c = Inr data \<and> data r = None)" by simp
  from Cons.IH [OF st1(2,3) rest Cons.prems(4)] st1(1) show ?case by simp
qed

text \<open>
  C4, amended. When the deadline has passed at the check that opens a poll cycle, the
  wait fails with a plain \<^verbatim>\<open>Error\<close> whose only content is the fixed message
  \<open>timeout_message\<close>, in the scale command and in the deploy command alike; the error
  names no region. In the scale command, for a constraint set with a region that no
  snapshot lists before the deadline (the fetches succeeding), the wait does reach that
  check and fails with this error; the region is then still in the poller's own
  unconverged set (the second component, which is local to the call and not thrown).
\<close>

theorem timeout_is_a_plain_error:
  assumes "r \<in> fst ` set intendedScale"
    and "\<forall>c\<in>set pre. clock c < start + timeout opts \<and> (\<exists>data. fetched c = Inr data \<and> data r = None)"
    and "start + timeout opts \<le> clock c"
    and "start + 120000 \<le> clock c'"
  shows "(\<exists>st'. waitForScale start intendedScale opts (pre @ c # post)
                 = Some (Threw (Error timeout_message), st')
            \<and> r \<in> set (intendedScaleDcs st'))
       \<and> poll_cycle start intendedScale opts c st = Stop (Threw (Error timeout_message)) st
       \<and> deploy_cycle start scale c' dst
           = Stop (Threw (Error timeout_message)) (dst\<lparr>deploy_effects := deploy_effects dst @ [CancelWait]\<rparr>)"
proof -
  let ?st0 = "\<lparr>intendedScaleDcs = new_Set (Object_keys intendedScale), effects = []\<rparr>"
  have "r \<in> set (intendedScaleDcs ?st0)" using assms(1) by (simp add: Object_keys_def)
  moreover have "set (intendedScaleDcs ?st0) \<subseteq> fst ` set intendedScale"
    by (simp add: Object_keys_def)
  ultimately show ?thesis
    using waitForScale_loop_absent [OF _ _ assms(2,3), of ?st0 intendedScale post]
      poll_cycle_timeout [OF assms(3)] deploy_cycle_timeout [OF assms(4)]
    by (simp add: waitForScale_def)
qed

theorem timeout_is_a_plain_error_witness:
  "''bru1'' \<in> fst ` set [(''sfo1'', \<lparr>preset_min = Num 1, preset_max = Num 1\<rparr>),
                          (''bru1'', \<lparr>preset_min = Num 1, preset_max = Num 1\<rparr>)]
   \<and> clock \<lparr>clock = 10, fetched = Inr (Map.empty(''sfo1'' \<mapsto> \<lparr>instances = [''a'']\<rparr>))\<rparr>
        < 0 + timeout \<lparr>timeout = 1000, checkInterval = 500, onDCScaled = True\<rparr>
   \<and> (Map.empty(''sfo1'' \<mapsto> \<lparr>instances = [''a'']\<rparr>)) ''bru1'' = None
   \<and> 0 + timeout \<lparr>timeout = 1000, checkInterval = 500, onDCScaled = True\<rparr>
        \<le> clock \<lparr>clock = 1000, fetched = Inr Map.empty\<rparr>
   \<and> (0::int) + 120000 \<le> clock \<lparr>clock = 120000, fetched = Inr Map.empty\<rparr>
   \<and> (\<exists>st'. waitForScale 0 [(''sfo1'', \<lparr>preset_min = Num 1, preset_max = Num 1\<rparr>),
                             (''bru1'', \<lparr>preset_min = Num 1, preset_max = Num 1\<rparr>)]
                \<lparr>timeout = 1000, checkInterval = 500, onDCScaled = True\<rparr>
                ([\<lparr>clock = 10, fetched = Inr (Map.empty(''sfo1'' \<mapsto> \<lparr>instances = [''a'']\<rparr>))\<rparr>]
                  @ \<lparr>clock = 1000, fetched = Inr Map.empty\<rparr> # [])
              = Some (Threw (Error timeout_message), st')
          \<and> ''bru1'' \<in> set (intendedScaleDcs st'))
   \<and> poll_cycle 0 [(''sfo1'', \<lparr>preset_min = Num 1, preset_max = Num 1\<rparr>),
                     (''bru1'', \<lparr>preset_min = Num 1, preset_max = Num 1\<rparr>)]
         \<lparr>timeout = 1000, checkInterval = 500, onDCScaled = True\<rparr>
         \<lparr>clock = 1000, fetched = Inr Map.empty\<rparr>
         \<lparr>intendedScaleDcs = [''bru1''], effects = []\<rparr>
       = Stop (Threw (Error timeout_message)) \<lparr>intendedScaleDcs = [''bru1''], effects = []\<rparr>
   \<and> deploy_cycle 0 [] \<lparr>clock = 120000, fetched = Inr Map.empty\<rparr>
         \<lparr>remainingMatches = [], deploy_effects = []\<rparr>
       = Stop (Threw (Error timeout_message)) \<lparr>remainingMatches = [], deploy_effects = [CancelWait]\<rparr>"
proof -
  let ?scale = "[(''sfo1'', \<lparr>preset_min = Num 1, preset_max = Num 1\<rparr>),
                 (''bru1'', \<lparr>preset_min = Num 1, preset_max = Num 1\<rparr>)]"
  let ?opts = "\<lparr>timeout = 1000, checkInterval = 500, onDCScaled = True\<rparr>"
  let ?pre = "[\<lparr>clock = 10, fetched = Inr (Map.empty(''sfo1'' \<mapsto> \<lparr>instances = [''a'']\<rparr>))\<rparr>]"
  let ?c = "\<lparr>clock = 1000, fetched = (Inr Map.empty :: error + snapshot)\<rparr>"
  let ?c' = "\<lparr>clock = 120000, fetched = (Inr Map.empty :: error + snapshot)\<rparr>"
  have h1: "''bru1'' \<in> fst ` set ?scale" by simp
  have h2: "\<forall>c\<in>set ?pre. clock c < 0 + timeout ?opts
              \<and> (\<exists>data. fetched c = Inr data \<and> data ''bru1'' = None)" by simp
  have h3: "0 + timeout ?opts \<le> clock ?c" by simp
  have h4: "(0::int) + 120000 \<le> clock ?c'" by simp
  show ?thesis
    using h1 h2 h3 h4
      timeout_is_a_plain_error [OF h1 h2 h3 h4, where post = "[]"
        and st = "\<lparr>intendedScaleDcs = [''bru1''], effects = []\<rparr>" and scale = "[]"
        and dst = "\<lparr>remainingMatches = [], deploy_effects = []\<rparr>"]
    by simp
qed

text \<open>
  C4, as stated, fails: the error thrown at the deadline carries no set of regions. Two
  waits that time out with different regions unconverged, \<open>sfo1\<close> in one and \<open>bru1\<close> in
  the other, throw the same value, an \<^verbatim>\<open>Error\<close> with the fixed message.
\<close>

theorem timeout_error_names_no_region:
  "waitForScale 0 [(''sfo1'', \<lparr>preset_min = Num 1, preset_max = Num 1\<rparr>)]
      \<lparr>timeout = 1000, checkInterval = 500, onDCScaled = True\<rparr>
      [\<lparr>clock = 1000, fetched = Inr Map.empty\<rparr>]
     = Some (Threw (Error ''Timeout while verifying instance count (10m)''),
             \<lparr>intendedScaleDcs = [''sfo1''], effects = []\<rparr>)
   \<and> waitForScale 0 [(''bru1'', \<lparr>preset_min = Num 1, preset_max = Num 1\<rparr>)]
      \<lparr>timeout = 1000, checkInterval = 500, onDCScaled = True\<rparr>
      [\<lparr>clock = 1000, fetched = Inr Map.empty\<rparr>]
     = Some (Threw (Error ''Timeout while verifying instance count (10m)''),
             \<lparr>intendedScaleDcs = [''bru1''], effects = []\<rparr>)"
  by (simp add: waitForScale_def poll_cycle_def timeout_message_def Object_keys_def new_Set_def)

text \<open>
  C8, amended. A fetch of the snapshot that fails ends the wait at once with the error of
  the fetch, also when the deadline has not passed: no later cycle runs and nothing is
  retried. This holds for the scale command and for the deploy command.
\<close>

theorem fetch_failure_ends_the_wait:
  assumes "fetched c = Inl e"
  shows "(clock c < start + timeout opts \<longrightarrow>
           waitForScale_loop start intendedScale opts (c # cs) st
             = Some (Threw e, st\<lparr>effects := effects st @ [FetchInstances]\<rparr>))
       \<and> (clock c < start + 120000 \<longrightarrow>
           deploy_waitForScale_loop start scale (c # cs) dst
             = Some (Threw e, dst\<lparr>deploy_effects := deploy_effects dst @ [GetDeploymentInstances]\<rparr>))"
  using assms by (simp add: poll_cycle_def deploy_cycle_def)

theorem fetch_failure_ends_the_wait_witness:
  "fetched \<lparr>clock = 10, fetched = Inl (TransportError ''socket hang up'')\<rparr>
      = Inl (TransportError ''socket hang up'')
   \<and> clock \<lparr>clock = 10, fetched = Inl (TransportError ''socket hang up'')\<rparr>
        < 0 + timeout \<lparr>timeout = 120000, checkInterval = 500, onDCScaled = True\<rparr>
   \<and> clock \<lparr>clock = 10, fetched = Inl (TransportError ''socket hang up'')\<rparr> < 0 + (120000::int)
   \<and> waitForScale_loop 0 [(''sfo1'', \<lparr>preset_min = Num 1, preset_max = Num 1\<rparr>)]
        \<lparr>timeout = 120000, checkInterval = 500, onDCScaled = True\<rparr>
        (\<lparr>clock = 10, fetched = Inl (TransportError ''socket hang up'')\<rparr> # [])
        \<lparr>intendedScaleDcs = [''sfo1''], effects = []\<rparr>
      = Some (Threw (TransportError ''socket hang up''),
              \<lparr>intendedScaleDcs = [''sfo1''], effects = [FetchInstances]\<rparr>)
   \<and> deploy_waitForScale_loop 0 [(''sfo1'', \<lparr>preset_min = Num 1, preset_max = Num 1\<rparr>)]
        (\<lparr>clock = 10, fetched = Inl (TransportError ''socket hang up'')\<rparr> # [])
        \<lparr>remainingMatches = [''sfo1''], deploy_effects = []\<rparr>
      = Some (Threw (TransportError ''socket hang up''),
              \<lparr>remainingMatches = [''sfo1''], deploy_effects = [GetDeploymentInstances]\<rparr>)"
proof -
  let ?c = "\<lparr>clock = 10, fetched = (Inl (TransportError ''socket hang up'') :: error + snapshot)\<rparr>"
  have h: "fetched ?c = Inl (TransportError ''socket hang up'')" by simp
  show ?thesis
    using h fetch_failure_ends_the_wait [OF h, of 0
        "\<lparr>timeout = 120000, checkInterval = 500, onDCScaled = True\<rparr>"
        "[(''sfo1'', \<lparr>preset_min = Num 1, preset_max = Num 1\<rparr>)]" "[]"
        "\<lparr>intendedScaleDcs = [''sfo1''], effects = []\<rparr>"
        "[(''sfo1'', \<lparr>preset_min = Num 1, preset_max = Num 1\<rparr>)]"
        "\<lparr>remainingMatches = [''sfo1''], deploy_effects = []\<rparr>"]
    by simp
qed

text \<open>
  C8, as stated, fails: with two minutes to go, a first fetch that fails at the transport
  level makes the wait throw that error after a single fetch, although the next cycle
  would have found the region within its bounds (as the same wait without the failed
  cycle shows).
\<close>

theorem fetch_failure_is_not_retried:
  "waitForScale 0 [(''sfo1'', \<lparr>preset_min = Num 1, preset_max = Num 1\<rparr>)]
      \<lparr>timeout = 120000, checkInterval = 500, onDCScaled = True\<rparr>
      [\<lparr>clock = 10, fetched = Inl (TransportError ''socket hang up'')\<rparr>,
       \<lparr>clock = 510, fetched = Inr (Map.empty(''sfo1'' \<mapsto> \<lparr>instances = [''a'']\<rparr>))\<rparr>]
     = Some (Threw (TransportError ''socket hang up''),
             \<lparr>intendedScaleDcs = [''sfo1''], effects = [FetchInstances]\<rparr>)
   \<and> waitForScale 0 [(''sfo1'', \<lparr>preset_min = Num 1, preset_max = Num 1\<rparr>)]
      \<lparr>timeout = 120000, checkInterval = 500, onDCScaled = True\<rparr>
      [\<lparr>clock = 510, fetched = Inr (Map.empty(''sfo1'' \<mapsto> \<lparr>instances = [''a'']\<rparr>))\<rparr>]
     = Some (Returned (),
             \<lparr>intendedScaleDcs = [], effects = [FetchInstances, OnDCScaled ''sfo1'' 1, DebugMatch ''sfo1'']\<rparr>)"
  by (simp add: waitForScale_def poll_cycle_def Object_keys_def new_Set_def isInstanceCountBetween_Num)

lemma poll_cycle_state:
  assumes "poll_cycle start intendedScale opts c st = Stop r st'
           \<or> poll_cycle start intendedScale opts c st = Continue st'"
  shows "set (intendedScaleDcs st') \<subseteq> set (intendedScaleDcs st)
         \<and> length (intendedScaleDcs st') \<le> length (intendedScaleDcs st)"
proof (cases "start + timeout opts \<le> clock c")
  case True
  with assms show ?thesis by (simp add: poll_cycle_def)
next
  case False
  note early = this
  let ?st1 = "st\<lparr>effects := effects st @ [FetchInstances]\<rparr>"
  show ?thesis
  proof (cases "fetched c")
    case (Inl e)
    with early assms show ?thesis by (auto simp: poll_cycle_def)
  next
    case (Inr data)
    note data = this
    show ?thesis
    proof (cases "for_dcs intendedScale opts data (intendedScaleDcs ?st1) ?st1")
      case (Inl e)
      with early data assms show ?thesis by (auto simp: poll_cycle_def)
    next
      case (Inr st2)
      from for_dcs_subset [OF Inr] for_dcs_length [OF Inr]
      have "set (intendedScaleDcs st2) \<subseteq> set (intendedScaleDcs st)"
        "length (intendedScaleDcs st2) \<le> length (intendedScaleDcs st)" by simp_all
      moreover have "intendedScaleDcs st' = intendedScaleDcs st2"
        using early data Inr assms by (auto simp: poll_cycle_def split: if_splits)
      ultimately show ?thesis by simp
    qed
  qed
qed

lemma poll_state_after_shrinks:
  "set (intendedScaleDcs (poll_state_after start intendedScale opts cs st)) \<subseteq> set (intendedScaleDcs st)
   \<and> length (intendedScaleDcs (poll_state_after start intendedScale opts cs st))
       \<le> length (intendedScaleDcs st)"
proof (induction cs arbitrary: st)
  case Nil
  show ?case by simp
next
  case (Cons c cs)
  show ?case
  proof (cases "poll_cycle start intendedScale opts c st")
    case (Stop r st')
    with poll_cycle_state [of start intendedScale opts c st r st'] show ?thesis by simp
  next
    case (Continue st')
    with poll_cycle_state [of start intendedScale opts c st _ st'] Cons.IH [of st']
    show ?thesis by fastforce
  qed
qed

lemma poll_state_after_append:
  "set (intendedScaleDcs (poll_state_after start intendedScale opts (cs1 @ cs2) st))
     \<subseteq> set (intendedScaleDcs (poll_state_after start intendedScale opts cs1 st))
   \<and> length (intendedScaleDcs (poll_state_after start intendedScale opts (cs1 @ cs2) st))
       \<le> length (intendedScaleDcs (poll_state_after start intendedScale opts cs1 st))"
proof (induction cs1 arbitrary: st)
  case Nil
  show ?case using poll_state_after_shrinks by simp
next
  case (Cons c cs1)
  show ?case
    using Cons.IH by (cases "poll_cycle start intendedScale opts c st") simp_all
qed

lemma waitForScale_loop_final:
  "waitForScale_loop start intendedScale opts cs st = Some (r, st')
     \<Longrightarrow> poll_state_after start intendedScale opts cs st = st'"
  by (induction cs arbitrary: st) (auto split: turn.splits)

lemma deploy_cycle_state:
  assumes "deploy_cycle start scale c st = Stop r st' \<or> deploy_cycle start scale c st = Continue st'"
  shows "set (remainingMatches st') \<subseteq> set (remainingMatches st)
         \<and> length (remainingMatches st') \<le> length (remainingMatches st)"
proof -
  have len: "length (new_Set (filter P xs)) \<le> length xs" for P and xs :: "dc list"
  proof -
    have "length (new_Set (filter P xs)) \<le> length (filter P xs)"
      unfolding new_Set_def by (metis length_remdups_leq length_rev)
    also have "\<dots> \<le> length xs" by simp
    finally show ?thesis .
  qed
  show ?thesis
    using assms len [of _ "remainingMatches st"]
    by (auto simp: deploy_cycle_def Let_def split: if_splits sum.splits)
qed

lemma deploy_state_after_shrinks:
  "set (remainingMatches (deploy_state_after start scale cs st)) \<subseteq> set (remainingMatches st)
   \<and> length (remainingMatches (deploy_state_after start scale cs st)) \<le> length (remainingMatches st)"
proof (induction cs arbitrary: st)
  case Nil
  show ?case by simp
next
  case (Cons c cs)
  show ?case
  proof (cases "deploy_cycle start scale c st")
    case (Stop r st')
    with deploy_cycle_state [of start scale c st r st'] show ?thesis by simp
  next
    case (Continue st')
    with deploy_cycle_state [of start scale c st _ st'] Cons.IH [of st']
    show ?thesis by fastforce
  qed
qed

lemma deploy_state_after_append:
  "set (remainingMatches (deploy_state_after start scale (cs1 @ cs2) st))
     \<subseteq> set (remainingMatches (deploy_state_after start scale cs1 st))
   \<and> length (remainingMatches (deploy_state_after start scale (cs1 @ cs2) st))
       \<le> length (remainingMatches (deploy_state_after start scale cs1 st))"
proof (induction cs1 arbitrary: st)
  case Nil
  show ?case using deploy_state_after_shrinks by simp
next
  case (Cons c cs1)
  show ?case
    using Cons.IH by (cases "deploy_cycle start scale c st") simp_all
qed

lemma deploy_waitForScale_loop_final:
  "deploy_waitForScale_loop start scale cs st = Some (r, st')
     \<Longrightarrow> deploy_state_after start scale cs st = st'"
  by (induction cs arbitrary: st) (auto split: turn.splits)

text \<open>
  C7. Within one wait the unconverged set only shrinks. Whatever state the poller is in
  and whatever the later turns \<open>cs2\<close> bring (any clock, any snapshot, also one in which a
  region that had converged is out of its bounds again), the set after the turns
  \<open>cs1 @ cs2\<close> is contained in the set after the turns \<open>cs1\<close>, and is no larger: a region
  that has left the set is not in it later. This holds for the set of the scale command
  and for that of the deploy command.
\<close>

theorem unconverged_set_only_shrinks:
  "set (intendedScaleDcs (poll_state_after start intendedScale opts (cs1 @ cs2) st))
     \<subseteq> set (intendedScaleDcs (poll_state_after start intendedScale opts cs1 st))
   \<and> length (intendedScaleDcs (poll_state_after start intendedScale opts (cs1 @ cs2) st))
       \<le> length (intendedScaleDcs (poll_state_after start intendedScale opts cs1 st))
   \<and> set (remainingMatches (deploy_state_after start scale (cs1 @ cs2) dst))
     \<subseteq> set (remainingMatches (deploy_state_after start scale cs1 dst))
   \<and> length (remainingMatches (deploy_state_after start scale (cs1 @ cs2) dst))
       \<le> length (remainingMatches (deploy_state_after start scale cs1 dst))"
  using poll_state_after_append [of start intendedScale opts cs1 cs2 st]
        deploy_state_after_append [of start scale cs1 cs2 dst]
  by blast

section \<open>Properties of the build event loop\<close>

lemma sync_events_step:
  assumes "\<not> is_state_change ''READY'' a" and "\<not> is_state_change ''ERROR'' a"
  shows "sync_events (a # evs) fin out = sync_events evs fin (out @ print_event a)"
  using assms by (auto simp: is_state_change_def)

lemma sync_events_forward:
  "\<forall>e\<in>set pre. \<not> is_state_change ''READY'' e \<and> \<not> is_state_change ''ERROR'' e
     \<Longrightarrow> sync_events (pre @ rest) fin out
           = sync_events rest fin (out @ concat (map print_event pre))"
proof (induction pre arbitrary: out)
  case Nil
  show ?case by simp
next
  case (Cons a pre)
  from Cons.prems have a: "\<not> is_state_change ''READY'' a" "\<not> is_state_change ''ERROR'' a"
    and rest: "\<forall>e\<in>set pre. \<not> is_state_change ''READY'' e \<and> \<not> is_state_change ''ERROR'' e"
    by simp_all
  have "sync_events ((a # pre) @ rest) fin out = sync_events (pre @ rest) fin (out @ print_event a)"
    using sync_events_step [OF a] by simp
  also have "\<dots> = sync_events rest fin ((out @ print_event a) @ concat (map print_event pre))"
    by (rule Cons.IH [OF rest])
  finally show ?case by simp
qed

lemma sync_events_ready:
  assumes "is_state_change ''READY'' ev"
    and "\<forall>e\<in>set pre. \<not> is_state_change ''READY'' e \<and> \<not> is_state_change ''ERROR'' e"
  shows "sync_events (pre @ ev # post) fin out
     = Some \<lparr>left_by = Break, printed = out @ concat (map print_event pre) @ [Log ''Build completed''],
             unread = post\<rparr>"
  using assms(1) sync_events_forward [OF assms(2), of "ev # post" fin out]
  by (simp add: is_state_change_def)

lemma sync_events_error:
  assumes "is_state_change ''ERROR'' ev"
    and "\<forall>e\<in>set pre. \<not> is_state_change ''READY'' e \<and> \<not> is_state_change ''ERROR'' e"
  shows "sync_events (pre @ ev # post) fin out
     = Some \<lparr>left_by = ProcessExit 1, printed = out @ concat (map print_event pre) @ [ErrorOut ''Build failed''],
             unread = post\<rparr>"
  using assms(1) sync_events_forward [OF assms(2), of "ev # post" fin out]
  by (simp add: is_state_change_def)

text \<open>
  C5, as stated, fails: it is not for every event sequence that the first change of
  state to \<^verbatim>\<open>READY\<close> brings \<^verbatim>\<open>Build completed\<close>. When a change of state to \<^verbatim>\<open>ERROR\<close>
  comes first, the loop prints \<^verbatim>\<open>Build failed\<close> and ends the process there; the \<^verbatim>\<open>READY\<close>
  event is never read and no \<^verbatim>\<open>Build completed\<close> is printed.
\<close>

theorem build_failed_before_ready:
  "sync_events [state_change ''ERROR'', state_change ''READY''] Done []
     = Some \<lparr>left_by = ProcessExit 1, printed = [ErrorOut ''Build failed''],
             unread = [state_change ''READY'']\<rparr>"
  by (simp add: state_change_def)

text \<open>
  C5, amended. Let \<open>ev\<close> be the first change of state to \<^verbatim>\<open>READY\<close> in the sequence
  \<open>pre @ ev # post\<close>. If no change of state to \<^verbatim>\<open>ERROR\<close> comes before it (which would
  have ended the process already), the loop prints what it prints for the events of \<open>pre\<close>,
  in their order, then \<^verbatim>\<open>Build completed\<close> once, and is left by \<^verbatim>\<open>break\<close> with \<open>post\<close>
  unread. In every case the loop ends with all of \<open>post\<close> unread, and its result is the
  same whatever follows the \<^verbatim>\<open>READY\<close> event and however the stream ends: no event after
  it is observed or printed.
\<close>

theorem build_completed_stops_the_consumer:
  assumes ready: "is_state_change ''READY'' ev"
    and first: "\<forall>e\<in>set pre. \<not> is_state_change ''READY'' e"
  shows "((\<forall>e\<in>set pre. \<not> is_state_change ''ERROR'' e) \<longrightarrow>
            sync_events (pre @ ev # post) fin out
              = Some \<lparr>left_by = Break,
                      printed = out @ concat (map print_event pre) @ [Log ''Build completed''],
                      unread = post\<rparr>)
       \<and> (\<exists>r ys. sync_events (pre @ ev # post) fin out = Some r \<and> unread r = ys @ post
             \<and> (\<forall>post' fin'. sync_events (pre @ ev # post') fin' out = Some (r\<lparr>unread := ys @ post'\<rparr>)))"
proof (cases "\<forall>e\<in>set pre. \<not> is_state_change ''ERROR'' e")
  case True
  with first have plain: "\<forall>e\<in>set pre. \<not> is_state_change ''READY'' e \<and> \<not> is_state_change ''ERROR'' e"
    by blast
  let ?r = "\<lparr>left_by = Break, printed = out @ concat (map print_event pre) @ [Log ''Build completed''],
             unread = post\<rparr>"
  have "sync_events (pre @ ev # post) fin out = Some ?r \<and> unread ?r = [] @ post
      \<and> (\<forall>post' fin'. sync_events (pre @ ev # post') fin' out = Some (?r\<lparr>unread := [] @ post'\<rparr>))"
    using sync_events_ready [OF ready plain] by simp
  then show ?thesis using True by blast
next
  case False
  then have "\<exists>e\<in>set pre. is_state_change ''ERROR'' e" by blast
  then obtain p1 e p2 where split: "pre = p1 @ e # p2" "is_state_change ''ERROR'' e"
    "\<forall>x\<in>set p1. \<not> is_state_change ''ERROR'' x"
    using split_list_first_prop [of pre "is_state_change ''ERROR''"] by blast
  with first have plain: "\<forall>x\<in>set p1. \<not> is_state_change ''READY'' x \<and> \<not> is_state_change ''ERROR'' x"
    by simp
  let ?r = "\<lparr>left_by = ProcessExit 1,
             printed = out @ concat (map print_event p1) @ [ErrorOut ''Build failed''],
             unread = p2 @ ev # post\<rparr>"
  have "sync_events (pre @ ev # post) fin out = Some ?r \<and> unread ?r = (p2 @ [ev]) @ post
      \<and> (\<forall>post' fin'. sync_events (pre @ ev # post') fin' out = Some (?r\<lparr>unread := (p2 @ [ev]) @ post'\<rparr>))"
    using sync_events_error [OF split(2) plain, of "p2 @ ev # _" _ out] split(1) by simp
  then show ?thesis using False by blast
qed

theorem build_completed_stops_the_consumer_witness:
  "is_state_change ''READY'' (state_change ''READY'')
   \<and> sync_events ([text_event ''build-start'' [], text_event ''stdout'' ''a'', state_change ''BUILDING'']
                    @ state_change ''READY'' # [text_event ''stdout'' ''late'']) Blocked []
       = Some \<lparr>left_by = Break,
               printed = [Log building_text, Log ''a'', Log ''Build completed''],
               unread = [text_event ''stdout'' ''late'']\<rparr>"
proof -
  let ?pre = "[text_event ''build-start'' [], text_event ''stdout'' ''a'', state_change ''BUILDING'']"
  have h1: "is_state_change ''READY'' (state_change ''READY'')"
    by (simp add: is_state_change_def state_change_def)
  have h2: "\<forall>e\<in>set ?pre. \<not> is_state_change ''READY'' e"
    by (simp add: is_state_change_def state_change_def text_event_def)
  have h3: "\<forall>e\<in>set ?pre. \<not> is_state_change ''ERROR'' e"
    by (simp add: is_state_change_def state_change_def text_event_def)
  have p: "[] @ concat (map print_event ?pre) @ [Log ''Build completed'']
             = [Log building_text, Log ''a'', Log ''Build completed'']"
    by (simp add: print_event_def state_change_def text_event_def formatText_def newline_def)
  from build_completed_stops_the_consumer [OF h1 h2, of "[text_event ''stdout'' ''late'']" Blocked "[]"] h3
  have "sync_events (?pre @ state_change ''READY'' # [text_event ''stdout'' ''late'']) Blocked []
      = Some \<lparr>left_by = Break,
              printed = [] @ concat (map print_event ?pre) @ [Log ''Build completed''],
              unread = [text_event ''stdout'' ''late'']\<rparr>"
    by blast
  with h1 show ?thesis unfolding p by blast
qed

text \<open>
  C6, amended. When the first change of state to a terminal value is one to \<^verbatim>\<open>ERROR\<close>,
  the loop prints \<^verbatim>\<open>Build failed\<close> through \<^verbatim>\<open>output.error\<close>, reads no further event and
  ends the process itself with exit code 1; nothing is returned to a caller. A stream
  that is cut before any terminal state makes the loop throw the error of the stream,
  without \<^verbatim>\<open>Build failed\<close> and without the exit: the two are kept apart.
\<close>

theorem build_failed_ends_the_process:
  assumes "is_state_change ''ERROR'' ev"
    and "\<forall>e\<in>set pre. \<not> is_state_change ''READY'' e \<and> \<not> is_state_change ''ERROR'' e"
  shows "sync_events (pre @ ev # post) fin out
           = Some \<lparr>left_by = ProcessExit 1,
                   printed = out @ concat (map print_event pre) @ [ErrorOut ''Build failed''],
                   unread = post\<rparr>
       \<and> sync_events pre (Severed err) out
           = Some \<lparr>left_by = IteratorThrew err, printed = out @ concat (map print_event pre),
                   unread = []\<rparr>"
  using sync_events_error [OF assms] sync_events_forward [OF assms(2), of "[]" "Severed err" out]
  by simp

theorem build_failed_ends_the_process_witness:
  "is_state_change ''ERROR'' (state_change ''ERROR'')
   \<and> sync_events ([text_event ''build-start'' [], text_event ''stdout'' ''a'']
                    @ state_change ''ERROR'' # [text_event ''stdout'' ''late'']) Blocked []
       = Some \<lparr>left_by = ProcessExit 1,
               printed = [Log building_text, Log ''a'', ErrorOut ''Build failed''],
               unread = [text_event ''stdout'' ''late'']\<rparr>
   \<and> sync_events [text_event ''build-start'' [], text_event ''stdout'' ''a'']
        (Severed (TransportError ''socket hang up'')) []
       = Some \<lparr>left_by = IteratorThrew (TransportError ''socket hang up''),
               printed = [Log building_text, Log ''a''],
               unread = []\<rparr>"
proof -
  let ?pre = "[text_event ''build-start'' [], text_event ''stdout'' ''a'']"
  have h1: "is_state_change ''ERROR'' (state_change ''ERROR'')"
    by (simp add: is_state_change_def state_change_def)
  have h2: "\<forall>e\<in>set ?pre. \<not> is_state_change ''READY'' e \<and> \<not> is_state_change ''ERROR'' e"
    by (simp add: is_state_change_def text_event_def)
  have p: "concat (map print_event ?pre) = [Log building_text, Log ''a'']"
    by (simp add: print_event_def text_event_def formatText_def newline_def)
  from build_failed_ends_the_process [OF h1 h2, of "[text_event ''stdout'' ''late'']" Blocked "[]"
      "TransportError ''socket hang up''"]
  show ?thesis using h1 unfolding p by simp
qed

text \<open>
  C6, as stated, fails. On a change of state to \<^verbatim>\<open>ERROR\<close> the loop does not hand an
  outcome to its caller: it calls \<^verbatim>\<open>exit(1)\<close>, so the exit code is decided in the loop.
  And a sequence that ends in \<^verbatim>\<open>ERROR\<close> after a \<^verbatim>\<open>READY\<close> is left at the \<^verbatim>\<open>READY\<close>, with
  \<^verbatim>\<open>Build completed\<close> and no \<^verbatim>\<open>Build failed\<close>.
\<close>

theorem build_failed_is_an_exit_not_an_outcome:
  "sync_events [state_change ''ERROR''] Done []
     = Some \<lparr>left_by = ProcessExit 1, printed = [ErrorOut ''Build failed''], unread = []\<rparr>
   \<and> sync_events [state_change ''READY'', state_change ''ERROR''] Done []
     = Some \<lparr>left_by = Break, printed = [Log ''Build completed''], unread = [state_change ''ERROR'']\<rparr>"
  by (simp add: state_change_def)

section \<open>Properties of onExit\<close>

lemma run_callback_updates:
  "list_all is_update cs \<Longrightarrow> \<exists>w. run_callback k fn cs s = Some (Normal, s\<lparr>world := w\<rparr>)"
proof (induction cs arbitrary: s)
  case Nil
  have "s = s\<lparr>world := world s\<rparr>" by simp
  then show ?case by (metis run_callback.simps(1))
next
  case (Cons c cs)
  then obtain f where c: "c = Update f" by (cases c) auto
  from Cons have "list_all is_update cs" by simp
  from Cons.IH [OF this, of "s\<lparr>world := f (world s)\<rparr>"] c show ?case by auto
qed

lemma deliver_after_exit: "exit_flag s \<Longrightarrow> deliver n (Suc k) fn s = Some s"
  by (induction n) simp_all

text \<open>
  For a callback that only works on its state (it neither throws nor emits an event),
  the flag does what it is there for: the handler of a fresh \<^verbatim>\<open>onExit\<close> run by \<open>n \<ge> 1\<close>
  deliveries leaves the state that one delivery leaves, with the callback run once.
\<close>

lemma onExit_once_for_updates:
  assumes "list_all is_update fn" and "1 \<le> n"
  shows "\<exists>s. deliver n (Suc k) fn (onExit w) = Some s \<and> deliver 1 (Suc k) fn (onExit w) = Some s
             \<and> fn_calls s = 1 \<and> exit_flag s"
proof -
  from assms(2) obtain m where n: "n = Suc m" by (cases n) auto
  let ?s0 = "(onExit w)\<lparr>fn_calls := Suc (fn_calls (onExit w))\<rparr>"
  from run_callback_updates [OF assms(1), of k fn ?s0]
  obtain w' where run: "run_callback k fn fn ?s0 = Some (Normal, ?s0\<lparr>world := w'\<rparr>)" by blast
  let ?s1 = "?s0\<lparr>world := w', exit_flag := True\<rparr>"
  have one: "onExit_handler (Suc k) fn (onExit w) = Some (Normal, ?s1)"
    using run by (simp add: onExit_def)
  have flag: "exit_flag ?s1" by simp
  have "deliver n (Suc k) fn (onExit w) = Some ?s1"
    unfolding n using one deliver_after_exit [OF flag] by simp
  moreover have "deliver 1 (Suc k) fn (onExit w) = Some ?s1"
    using one by simp
  moreover have "fn_calls ?s1 = 1" by (simp add: onExit_def)
  ultimately show ?thesis using flag by blast
qed


section \<open>Properties of the scale command\<close>

lemma main_prepare_effects:
  "main_prepare env = Inr (a, dep, scaleArgs, effs)
     \<Longrightarrow> \<exists>ident. effs = [FindDeployment ident, LogFetched (url dep), SetScale (uid dep) scaleArgs]"
  by (auto simp: main_prepare_def main_deployment_def Let_def
           split: sum.splits option.splits prod.splits if_splits error.splits)

lemma main_arguments_cycles:
  "main_arguments (env\<lparr>verify_start := t, cycles := cs\<rparr>) = main_arguments env"
  by (simp add: main_arguments_def cong: sum.case_cong option.case_cong if_cong)

lemma main_dcs_cycles:
  "main_dcs (env\<lparr>verify_start := t, cycles := cs\<rparr>) d = main_dcs env d"
  by (simp add: main_dcs_def)

lemma main_deployment_cycles:
  "main_deployment (env\<lparr>verify_start := t, cycles := cs\<rparr>) ident dcIds mn mx
     = main_deployment env ident dcIds mn mx"
  by (simp add: main_deployment_def Let_def cong: sum.case_cong if_cong)

lemma main_prepare_cycles:
  "main_prepare (env\<lparr>verify_start := t, cycles := cs\<rparr>) = main_prepare env"
  by (simp add: main_prepare_def main_arguments_cycles main_dcs_cycles main_deployment_cycles
           cong: sum.case_cong option.case_cong prod.case_cong)

lemma main_prepare_example:
  "main_prepare (example_env True)
     = Inr (\<lparr>opt_help = False, opt_no_verify = True, opt_verify_timeout = None,
              positional = [''my-app.now.sh'', ''sfo1'', ''1'', ''2'']\<rparr>,
            \<lparr>uid = ''dpl_1'', url = ''my-app.now.sh'', dep_type = ''NPM'', dep_state = ''READY''\<rparr>,
            [(''sfo1'', \<lparr>preset_min = Num 1, preset_max = Num 2\<rparr>)],
            [FindDeployment ''my-app.now.sh'', LogFetched ''my-app.now.sh'',
             SetScale ''dpl_1'' [(''sfo1'', \<lparr>preset_min = Num 1, preset_max = Num 2\<rparr>)]])"
  by (simp add: main_prepare_def main_arguments_def main_dcs_def main_deployment_def example_env_def
       arg_at_def legacy_min_max_def given_min_max_def isMinOrMaxArgument_def isNumeric_def
       toMin_def toMax_def Number_of_def make_scaleArgs_def new_Set_def Let_def)

text \<open>
  C10. Once the rules are saved, a deployment of type \<^verbatim>\<open>BINARY\<close> or the flag
  \<^verbatim>\<open>--no-verify\<close> makes \<^verbatim>\<open>main\<close> print the success message, close the client and return 0.
  Nothing of the verification happens: no effect of the polling (nor the spinner of
  \<^verbatim>\<open>waitDcs\<close>, nor the handler of \<^verbatim>\<open>onExit\<close>) is among the effects, and the result does
  not depend on the clock or on the turns the polling loop would have been given.
\<close>

theorem binary_or_no_verify_skips_verification:
  assumes "main_prepare env = Inr (a, dep, scaleArgs, effs)"
    and "dep_type dep = ''BINARY'' \<or> opt_no_verify a"
  shows "main env = Some (Returned 0, effs @ [ConsoleLogSuccessMsg, NowClose])
       \<and> list_all (\<lambda>e. \<not> is_verification e) (effs @ [ConsoleLogSuccessMsg, NowClose])
       \<and> (\<forall>t cs. main (env\<lparr>verify_start := t, cycles := cs\<rparr>) = main env)"
proof -
  have m: "main_verify env' a dep scaleArgs effs = Some (Returned 0, effs @ [ConsoleLogSuccessMsg, NowClose])"
    for env'
    using assms(2) by (auto simp: main_verify_def)
  have 1: "main env = Some (Returned 0, effs @ [ConsoleLogSuccessMsg, NowClose])"
    using assms(1) m by (simp add: main_def)
  have 2: "main (env\<lparr>verify_start := t, cycles := cs\<rparr>) = main env" for t cs
    using assms(1) m 1 by (simp add: main_def main_prepare_cycles)
  from main_prepare_effects [OF assms(1)]
  have 3: "list_all (\<lambda>e. \<not> is_verification e) (effs @ [ConsoleLogSuccessMsg, NowClose])"
    by (auto simp: is_verification_def)
  from 1 2 3 show ?thesis by blast
qed

theorem binary_or_no_verify_skips_verification_witness:
  "opt_no_verify \<lparr>opt_help = False, opt_no_verify = True, opt_verify_timeout = None,
                    positional = [''my-app.now.sh'', ''sfo1'', ''1'', ''2'']\<rparr>
   \<and> main (example_env True)
       = Some (Returned 0,
               [FindDeployment ''my-app.now.sh'', LogFetched ''my-app.now.sh'',
                SetScale ''dpl_1'' [(''sfo1'', \<lparr>preset_min = Num 1, preset_max = Num 2\<rparr>)],
                ConsoleLogSuccessMsg, NowClose])"
proof -
  let ?a = "\<lparr>opt_help = False, opt_no_verify = True, opt_verify_timeout = None,
             positional = [''my-app.now.sh'', ''sfo1'', ''1'', ''2'']\<rparr>"
  let ?dep = "\<lparr>uid = ''dpl_1'', url = ''my-app.now.sh'', dep_type = ''NPM'', dep_state = ''READY''\<rparr>"
  have h: "dep_type ?dep = ''BINARY'' \<or> opt_no_verify ?a" by simp
  from binary_or_no_verify_skips_verification [OF main_prepare_example h]
  show ?thesis by simp
qed

end
